theory Spec2Isabelle
  imports Main
begin

section \<open>Exceptions\<close>

text \<open>
  The exceptions that can travel through \<^verbatim>\<open>enhanced_burst_generator.py\<close>.
  \<open>OSError\<close> stands for \<^verbatim>\<open>socket.error\<close> (an alias of \<^verbatim>\<open>OSError\<close>; timeouts and
  refused connections are subclasses of it). \<open>OverflowError\<close> is what the socket
  module raises when \<^verbatim>\<open>bind\<close> or \<^verbatim>\<open>connect\<close> is given a port outside 0..65535.
  \<open>ValueError\<close> is raised by \<^verbatim>\<open>random.randint\<close> on an empty range, \<open>IndexError\<close> by
  indexing a sequence out of range. \<open>EbgException v\<close> is the program's own exception
  class with its integer \<^verbatim>\<open>value\<close>.
\<close>

datatype exn = OSError | OverflowError | ValueError | IndexError | EbgException int

definition CLIENT_NUM_ERROR :: int where "CLIENT_NUM_ERROR = 1"
definition SERVER_NUM_ERROR :: int where "SERVER_NUM_ERROR = 2"
definition THREAD_NUM_ERROR :: int where "THREAD_NUM_ERROR = 3"
definition NO_PORT_TO_USE :: int where "NO_PORT_TO_USE = 4"

text \<open>\<^verbatim>\<open>except socket.error\<close> catches \<open>OSError\<close> and nothing else of the above.\<close>

definition is_socket_error :: "exn \<Rightarrow> bool" where
  "is_socket_error e = (e = OSError)"

section \<open>The server side\<close>

text \<open>
  A \<^verbatim>\<open>server_thread\<close> object: the port its listening socket is bound to, the number of
  acceptor threads (also the \<^verbatim>\<open>listen\<close> backlog), and whether \<^verbatim>\<open>start()\<close> has launched
  it.
\<close>

record server_thread =
  sock :: int
  acceptors :: int
  alive :: bool

text \<open>
  \<^verbatim>\<open>server_thread.__init__\<close> creates the socket, binds it to \<^verbatim>\<open>('localhost', port)\<close> and
  listens. The operating system decides whether a port can be bound; it is the
  parameter \<open>bindable\<close>, asked once per port. A port number outside 0..65535 never
  reaches the operating system: \<^verbatim>\<open>bind\<close> raises \<open>OverflowError\<close>. A refused bind raises
  \<open>OSError\<close>. The constructor has no handler, so either exception leaves it.
\<close>

definition server_thread_init :: "(int \<Rightarrow> bool) \<Rightarrow> int \<Rightarrow> int \<Rightarrow> exn + server_thread" where
  "server_thread_init bindable port thr =
     (if port < 0 \<or> 65535 < port then Inl OverflowError
      else if bindable port then Inr \<lparr>sock = port, acceptors = thr, alive = False\<rparr>
      else Inl OSError)"

text \<open>\<^verbatim>\<open>Server\<close>: \<^verbatim>\<open>self.threads\<close>, \<^verbatim>\<open>self.s_n\<close> and \<^verbatim>\<open>self.s_list\<close>.\<close>

record Server =
  threads :: int
  s_n :: int
  s_list :: "server_thread list"

definition Server_init :: "int \<Rightarrow> int \<Rightarrow> Server" where
  "Server_init thr n = \<lparr>threads = thr, s_n = n, s_list = []\<rparr>"

text \<open>
  The loop of \<^verbatim>\<open>Server.start\<close>:
  \<^verbatim>\<open>
    while s_counter < self.s_n or s_port >= 65535:
        try:
            s = server_thread(s_port, self.threads)
            self.s_list.append(s)
            s_ports.append(s_port)
            s_counter += 1
            s.start()
        finally:
            s_port += 1
    return s_ports
  \<close>
  The \<^verbatim>\<open>try\<close> has a \<^verbatim>\<open>finally\<close> and no \<^verbatim>\<open>except\<close>: when the constructor raises, the
  local \<^verbatim>\<open>s_port\<close> is incremented and the exception continues out of \<^verbatim>\<open>start\<close>. The
  result is the outcome (the exception, or the returned \<^verbatim>\<open>s_ports\<close>), the \<^verbatim>\<open>Server\<close>
  object as the call leaves it, and the log of the ports on which a bind was
  attempted, in order.
\<close>

type_synonym start_result = "(exn + int list) \<times> Server \<times> int list"

function start_loop ::
  "(int \<Rightarrow> bool) \<Rightarrow> Server \<Rightarrow> int \<Rightarrow> int list \<Rightarrow> int \<Rightarrow> int list \<Rightarrow> start_result" where
  "start_loop bindable self s_counter s_ports s_port tried =
     (if s_counter < s_n self \<or> s_port \<ge> 65535 then
        (case server_thread_init bindable s_port (threads self) of
           Inl e \<Rightarrow> (Inl e, self, tried @ [s_port])
         | Inr s \<Rightarrow>
             start_loop bindable
               (self\<lparr>s_list := s_list self @ [s\<lparr>alive := True\<rparr>]\<rparr>)
               (s_counter + 1) (s_ports @ [s_port]) (s_port + 1) (tried @ [s_port]))
      else (Inr s_ports, self, tried))"
  by pat_completeness auto
termination
  by (relation "measure (\<lambda>(bindable, self, s_counter, s_ports, s_port, tried). nat (65536 - s_port))")
     (auto simp: server_thread_init_def split: if_splits)

declare start_loop.simps [simp del]

definition Server_start :: "(int \<Rightarrow> bool) \<Rightarrow> Server \<Rightarrow> int \<Rightarrow> start_result" where
  "Server_start bindable self s_port = start_loop bindable self 0 [] s_port []"

text \<open>\<^verbatim>\<open>Server.stop\<close> stops every endpoint and deletes the list.\<close>

definition Server_stop :: "Server \<Rightarrow> Server" where
  "Server_stop self = self\<lparr>s_list := []\<rparr>"

section \<open>The client side\<close>

definition TEST_MSG :: string where
  "TEST_MSG = ''Hello, eBPF!''"

text \<open>
  A \<^verbatim>\<open>client_thread\<close> object holds its target address, set once by the constructor
  and never assigned again, and whether \<^verbatim>\<open>start()\<close> has launched it.
\<close>

record client_thread =
  addr :: "string \<times> int"
  launched :: bool

definition client_thread_init :: "int \<Rightarrow> client_thread" where
  "client_thread_init s_port = \<lparr>addr = (''localhost'', s_port), launched = False\<rparr>"

text \<open>
  What one connection attempt does to its socket, in order, and what the system and
  the network answer to that attempt: whether each of the six socket calls of
  \<^verbatim>\<open>connect\<close> goes through. A call that does not go through raises a \<^verbatim>\<open>socket.error\<close>:
  \<^verbatim>\<open>socket.socket()\<close> when the process has no file descriptor left, \<^verbatim>\<open>connect\<close> and \<^verbatim>\<open>send\<close>
  when the peer refuses, resets or does not answer within 0.5 s. A port outside
  0..65535 makes \<^verbatim>\<open>connect\<close> raise \<open>OverflowError\<close> before anything is sent to the
  network.
\<close>

datatype sock_event = Opened | Connected | Sent string | Closed

record attempt_env =
  socket_ok :: bool
  settimeout_ok :: bool
  setsockopt_ok :: bool
  connect_ok :: bool
  send_ok :: bool
  close_ok :: bool

definition sock_call :: "bool \<Rightarrow> exn option" where
  "sock_call ok = (if ok then None else Some OSError)"

definition sock_connect :: "attempt_env \<Rightarrow> string \<times> int \<Rightarrow> exn option" where
  "sock_connect env a =
     (if snd a < 0 \<or> 65535 < snd a then Some OverflowError
      else if connect_ok env then None
      else Some OSError)"

definition sock_send :: "attempt_env \<Rightarrow> string \<Rightarrow> exn option" where
  "sock_send env msg = (if send_ok env then None else Some OSError)"

text \<open>
  \<^verbatim>\<open>client_thread.connect\<close>:
  \<^verbatim>\<open>
    s = socket.socket()
    s.settimeout(.5)
    s.setsockopt(socket.SOL_SOCKET, socket.SO_REUSEADDR, 1)
    try:
        s.connect(self.addr)
        s.send(TEST_MSG)
        return True
    except socket.error as exc:
        return False
    finally:
        s.close()
  \<close>
  The first three calls stand before the \<^verbatim>\<open>try\<close>: an exception of theirs leaves
  \<^verbatim>\<open>connect\<close> at once, with no handler and no \<^verbatim>\<open>close\<close>. \<open>body\<close> is the outcome of the
  \<^verbatim>\<open>try\<close> block with the events it caused, \<open>handled\<close> is what the \<^verbatim>\<open>except\<close> clause makes
  of it, and the \<^verbatim>\<open>finally\<close> clause closes the socket whatever the outcome; an
  exception of \<^verbatim>\<open>close\<close> replaces the outcome.
\<close>

definition client_thread_connect ::
  "attempt_env \<Rightarrow> client_thread \<Rightarrow> (exn + bool) \<times> sock_event list" where
  "client_thread_connect env self =
     (case sock_call (socket_ok env) of
        Some e \<Rightarrow> (Inl e, [])
      | None \<Rightarrow>
     (case sock_call (settimeout_ok env) of
        Some e \<Rightarrow> (Inl e, [Opened])
      | None \<Rightarrow>
     (case sock_call (setsockopt_ok env) of
        Some e \<Rightarrow> (Inl e, [Opened])
      | None \<Rightarrow>
     (let (body, evs) =
            (case sock_connect env (addr self) of
               Some e \<Rightarrow> (Inl e, [Opened])
             | None \<Rightarrow>
                 (case sock_send env TEST_MSG of
                    Some e \<Rightarrow> (Inl e, [Opened, Connected])
                  | None \<Rightarrow> (Inr True, [Opened, Connected, Sent TEST_MSG])));
          handled =
            (case body of
               Inl e \<Rightarrow> if is_socket_error e then Inr False else Inl e
             | Inr b \<Rightarrow> Inr b)
      in (case sock_call (close_ok env) of
            Some e \<Rightarrow> (Inl e, evs)
          | None \<Rightarrow> (handled, evs @ [Closed]))))))"

text \<open>
  An attempt during which the system refuses none of the calls that create, configure
  and close the socket.
\<close>

definition undisturbed :: "attempt_env \<Rightarrow> bool" where
  "undisturbed env =
     (socket_ok env \<and> settimeout_ok env \<and> setsockopt_ok env \<and> close_ok env)"

text \<open>What the attempt number \<open>k\<close> of a driver returns or raises.\<close>

definition attempt :: "(nat \<Rightarrow> attempt_env) \<Rightarrow> client_thread \<Rightarrow> nat \<Rightarrow> exn + bool" where
  "attempt net self k = fst (client_thread_connect (net k) self)"

text \<open>
  \<^verbatim>\<open>client_thread.run\<close> is \<^verbatim>\<open>while not self.connect(): pass\<close>. Nothing bounds the number
  of attempts, so the loop is a partial function: \<open>None\<close> is the run that never
  ends. \<open>net k\<close> is what the network answers to the attempt number \<open>k\<close>. A finished
  run gives the exception that ended the thread (\<open>None\<close> when \<^verbatim>\<open>run\<close> returned), the
  number of attempts made and the events of all of them.
\<close>

type_synonym run_result = "exn option \<times> nat \<times> sock_event list"

partial_function (option) run_loop ::
  "(nat \<Rightarrow> attempt_env) \<Rightarrow> client_thread \<Rightarrow> nat \<Rightarrow> sock_event list \<Rightarrow> run_result option" where
  "run_loop net self k evs =
     (case client_thread_connect (net k) self of
        (Inl e, es) \<Rightarrow> Some (Some e, Suc k, evs @ es)
      | (Inr ok, es) \<Rightarrow>
          if ok then Some (None, Suc k, evs @ es)
          else run_loop net self (Suc k) (evs @ es))"

declare run_loop.simps [code]

definition client_thread_run :: "(nat \<Rightarrow> attempt_env) \<Rightarrow> client_thread \<Rightarrow> run_result option" where
  "client_thread_run net self = run_loop net self 0 []"

text \<open>The successful sends among the events of a run.\<close>

definition sends :: "sock_event list \<Rightarrow> nat" where
  "sends evs = length (filter (\<lambda>ev. ev = Sent TEST_MSG) evs)"

text \<open>\<^verbatim>\<open>Client\<close>: \<^verbatim>\<open>self.s_ports\<close>, \<^verbatim>\<open>self.c_n\<close> and \<^verbatim>\<open>self.c_list\<close>.\<close>

record Client =
  s_ports :: "int list"
  c_n :: int
  c_list :: "client_thread list"

definition Client_init :: "int list \<Rightarrow> int \<Rightarrow> Client" where
  "Client_init ports n = \<lparr>s_ports = ports, c_n = n, c_list = []\<rparr>"

text \<open>
  \<^verbatim>\<open>random.randint(a, b)\<close> raises \<open>ValueError\<close> on an empty range and otherwise
  returns \<^verbatim>\<open>a + _randbelow(b - a + 1)\<close>. The generator is the parameter \<open>raw\<close>: its
  draw number \<open>i\<close> reduced below the width. Every value of the closed range can
  come out, and no other.
\<close>

definition randint :: "(nat \<Rightarrow> nat) \<Rightarrow> nat \<Rightarrow> int \<Rightarrow> int \<Rightarrow> exn + int" where
  "randint raw i a b =
     (if b < a then Inl ValueError
      else Inr (a + int (raw i mod nat (b - a + 1))))"

text \<open>Indexing a Python sequence: a negative index counts from the end.\<close>

definition py_index :: "'a list \<Rightarrow> int \<Rightarrow> exn + 'a" where
  "py_index xs i =
     (if 0 \<le> i \<and> i < int (length xs) then Inr (xs ! nat i)
      else if - int (length xs) \<le> i \<and> i < 0 then Inr (xs ! nat (int (length xs) + i))
      else Inl IndexError)"

text \<open>
  \<^verbatim>\<open>Client.start\<close>:
  \<^verbatim>\<open>
    s_n = len(self.s_ports)
    for i in range(self.c_n):
        tar_index = random.randint(0, s_n-1)
        c = client_thread(self.s_ports[tar_index])
        self.c_list.append(c)
        c.start()
  \<close>
  The task number \<open>i\<close> takes the draw number \<open>i\<close>. An exception leaves the loop with
  the drivers launched so far.
\<close>

fun start_tasks :: "(nat \<Rightarrow> nat) \<Rightarrow> int \<Rightarrow> nat list \<Rightarrow> Client \<Rightarrow> exn option \<times> Client" where
  "start_tasks raw s_n' [] self = (None, self)"
| "start_tasks raw s_n' (i # rest) self =
     (case randint raw i 0 (s_n' - 1) of
        Inl e \<Rightarrow> (Some e, self)
      | Inr tar_index \<Rightarrow>
          (case py_index (s_ports self) tar_index of
             Inl e \<Rightarrow> (Some e, self)
           | Inr p \<Rightarrow>
               start_tasks raw s_n' rest
                 (self\<lparr>c_list := c_list self @ [(client_thread_init p)\<lparr>launched := True\<rparr>]\<rparr>)))"

definition Client_start :: "(nat \<Rightarrow> nat) \<Rightarrow> Client \<Rightarrow> exn option \<times> Client" where
  "Client_start raw self =
     start_tasks raw (int (length (s_ports self))) [0..<nat (c_n self)] self"

text \<open>
  \<^verbatim>\<open>Client.join\<close> joins every driver in turn and deletes the list. The drivers share
  nothing but the immutable target list, so each one's run depends on its own
  attempts only: \<open>net j\<close> is the network as the driver number \<open>j\<close> meets it. \<^verbatim>\<open>join\<close> on
  a thread returns when the thread has ended, also when an exception ended it;
  it never returns while the thread runs.
\<close>

fun join_all :: "(nat \<Rightarrow> nat \<Rightarrow> attempt_env) \<Rightarrow> nat \<Rightarrow> client_thread list \<Rightarrow> run_result list option" where
  "join_all net j [] = Some []"
| "join_all net j (d # ds) =
     (case client_thread_run (net j) d of
        None \<Rightarrow> None
      | Some r \<Rightarrow>
          (case join_all net (Suc j) ds of
             None \<Rightarrow> None
           | Some rs \<Rightarrow> Some (r # rs)))"

definition Client_join :: "(nat \<Rightarrow> nat \<Rightarrow> attempt_env) \<Rightarrow> Client \<Rightarrow> (run_result list \<times> Client) option" where
  "Client_join net self =
     (case join_all net 0 (c_list self) of
        None \<Rightarrow> None
      | Some rs \<Rightarrow> Some (rs, self\<lparr>c_list := []\<rparr>))"


section \<open>The command line program\<close>

text \<open>
  The checks after the four flags have been converted with \<^verbatim>\<open>int\<close>:
  \<^verbatim>\<open>
    if CLIENT_NUM <= 0: raise EbgException(EbgException.CLIENT_NUM_ERROR)
    if SERVER_NUM <= 0: raise EbgException(EbgException.SERVER_NUM_ERROR)
    if THREAD_NUM <= 0: raise EbgException(EbgException.THREAD_NUM_ERROR)
  \<close>
  \<^verbatim>\<open>PORT\<close> is read with the others and no check looks at it.
\<close>

definition validate :: "int \<Rightarrow> int \<Rightarrow> int \<Rightarrow> int \<Rightarrow> exn option" where
  "validate CLIENT_NUM SERVER_NUM THREAD_NUM PORT =
     (if CLIENT_NUM \<le> 0 then Some (EbgException CLIENT_NUM_ERROR)
      else if SERVER_NUM \<le> 0 then Some (EbgException SERVER_NUM_ERROR)
      else if THREAD_NUM \<le> 0 then Some (EbgException THREAD_NUM_ERROR)
      else None)"

text \<open>
  The rest of the program: start the servers, raise \<^verbatim>\<open>NO_PORT_TO_USE\<close> on an empty
  port list, start the clients, join them, stop the servers. The result is \<open>None\<close>
  when the program never ends, the exception that ends it, or the ports, the runs
  of the drivers and the stopped \<^verbatim>\<open>Server\<close>.
\<close>

type_synonym report = "int list \<times> run_result list \<times> Server"

definition main ::
  "(int \<Rightarrow> bool) \<Rightarrow> (nat \<Rightarrow> nat) \<Rightarrow> (nat \<Rightarrow> nat \<Rightarrow> attempt_env) \<Rightarrow>
   int \<Rightarrow> int \<Rightarrow> int \<Rightarrow> int \<Rightarrow> (exn + report) option" where
  "main bindable raw net CLIENT_NUM SERVER_NUM THREAD_NUM PORT =
     (case validate CLIENT_NUM SERVER_NUM THREAD_NUM PORT of
        Some e \<Rightarrow> Some (Inl e)
      | None \<Rightarrow>
          (case Server_start bindable (Server_init THREAD_NUM SERVER_NUM) PORT of
             (Inl e, s, tried) \<Rightarrow> Some (Inl e)
           | (Inr ports, s, tried) \<Rightarrow>
               if length ports = 0 then Some (Inl (EbgException NO_PORT_TO_USE))
               else
                 (case Client_start raw (Client_init ports CLIENT_NUM) of
                    (Some e, c) \<Rightarrow> Some (Inl e)
                  | (None, c) \<Rightarrow>
                      (case Client_join net c of
                         None \<Rightarrow> None
                       | Some (results, c') \<Rightarrow> Some (Inr (ports, results, Server_stop s))))))"

section \<open>Facts about the server loop\<close>

lemma start_loop_extends:
  "fst (start_loop bindable self c ps p lg) = Inr r \<Longrightarrow> \<exists>ys. r = ps @ ys"
proof (induction bindable self c ps p lg rule: start_loop.induct)
  case (1 bindable self c ps p lg)
  show ?case
  proof (cases "c < s_n self \<or> p \<ge> 65535")
    case True
    note cond = this
    show ?thesis
    proof (cases "server_thread_init bindable p (threads self)")
      case (Inl e)
      with cond "1.prems" show ?thesis by (simp add: start_loop.simps)
    next
      case (Inr s)
      with cond "1.prems"
      have "fst (start_loop bindable (self\<lparr>s_list := s_list self @ [s\<lparr>alive := True\<rparr>]\<rparr>)
                  (c + 1) (ps @ [p]) (p + 1) (lg @ [p])) = Inr r"
        by (simp add: start_loop.simps)
      from "1.IH"[OF cond Inr this] show ?thesis by auto
    qed
  next
    case False
    with "1.prems" show ?thesis by (simp add: start_loop.simps)
  qed
qed

lemma start_first_iteration:
  assumes "1 \<le> s_n self"
  shows "(\<exists>e. fst (Server_start bindable self p) = Inl e) \<or>
         (\<exists>ps. fst (Server_start bindable self p) = Inr (p # ps))"
proof (cases "server_thread_init bindable p (threads self)")
  case (Inl e)
  with assms have "fst (Server_start bindable self p) = Inl e"
    by (simp add: Server_start_def start_loop.simps)
  then show ?thesis by blast
next
  case (Inr s)
  let ?rest = "start_loop bindable (self\<lparr>s_list := s_list self @ [s\<lparr>alive := True\<rparr>]\<rparr>) 1 [p] (p + 1) [p]"
  from Inr assms have unfold: "Server_start bindable self p = ?rest"
    by (simp add: Server_start_def start_loop.simps[of bindable self 0])
  show ?thesis
  proof (cases "fst ?rest")
    case (Inl e)
    with unfold show ?thesis by simp
  next
    case (Inr r)
    from start_loop_extends[OF this] obtain ys where "r = [p] @ ys" by blast
    with Inr unfold show ?thesis by simp
  qed
qed

lemma start_loop_raises:
  "fst (start_loop bindable self c ps p lg) = Inl e \<Longrightarrow> e = OSError \<or> e = OverflowError"
proof (induction bindable self c ps p lg rule: start_loop.induct)
  case (1 bindable self c ps p lg)
  show ?case
  proof (cases "c < s_n self \<or> p \<ge> 65535")
    case True
    note cond = this
    show ?thesis
    proof (cases "server_thread_init bindable p (threads self)")
      case (Inl e')
      with cond "1.prems" have "e' = e" by (simp add: start_loop.simps)
      with Inl show ?thesis by (auto simp: server_thread_init_def split: if_splits)
    next
      case (Inr s)
      with cond "1.prems"
      have "fst (start_loop bindable (self\<lparr>s_list := s_list self @ [s\<lparr>alive := True\<rparr>]\<rparr>)
                  (c + 1) (ps @ [p]) (p + 1) (lg @ [p])) = Inl e"
        by (simp add: start_loop.simps)
      from "1.IH"[OF cond Inr this] show ?thesis .
    qed
  next
    case False
    with "1.prems" show ?thesis by (simp add: start_loop.simps)
  qed
qed

lemma start_tasks_raises:
  "fst (start_tasks raw w js self) = Some e \<Longrightarrow> e = ValueError \<or> e = IndexError"
proof (induction js arbitrary: self)
  case Nil
  then show ?case by simp
next
  case (Cons i js)
  then show ?case
    by (auto simp: randint_def py_index_def split: sum.splits if_splits)
qed

lemma main_no_port_error:
  "main bindable raw net c n t p \<noteq> Some (Inl (EbgException NO_PORT_TO_USE))"
proof (cases "validate c n t p")
  case (Some e)
  then have "e \<noteq> EbgException NO_PORT_TO_USE"
    by (auto simp: validate_def CLIENT_NUM_ERROR_def SERVER_NUM_ERROR_def THREAD_NUM_ERROR_def
        NO_PORT_TO_USE_def split: if_splits)
  with Some show ?thesis by (simp add: main_def)
next
  case None
  then have "1 \<le> s_n (Server_init t n)"
    by (simp add: validate_def Server_init_def split: if_splits)
  from start_first_iteration[OF this, of bindable p]
  have nonempty: "fst (Server_start bindable (Server_init t n) p) \<noteq> Inr []" by auto
  have srv: "fst (Server_start bindable (Server_init t n) p) \<noteq> Inl (EbgException NO_PORT_TO_USE)"
    using start_loop_raises[of bindable "Server_init t n" 0 "[]" p "[]" "EbgException NO_PORT_TO_USE"]
    by (auto simp: Server_start_def)
  have cli: "fst (Client_start raw (Client_init ps c)) \<noteq> Some (EbgException NO_PORT_TO_USE)" for ps
    using start_tasks_raises[of raw _ _ "Client_init ps c" "EbgException NO_PORT_TO_USE"]
    by (auto simp: Client_start_def)
  show ?thesis
  proof (cases "Server_start bindable (Server_init t n) p")
    case (fields out s tried)
    show ?thesis
    proof (cases out)
      case (Inl e)
      with fields srv None show ?thesis by (auto simp: main_def)
    next
      case (Inr ports)
      with fields nonempty have "ports \<noteq> []" by auto
      with Inr fields None cli[of ports] show ?thesis
        by (cases "Client_start raw (Client_init ports c)")
           (auto simp: main_def split: option.splits)
    qed
  qed
qed

lemma start_loop_returns:
  "start_loop bindable self c ps p lg = (Inr r, self', lg') \<Longrightarrow>
     r = ps @ [p..p + (s_n self - c) - 1] \<and>
     lg' = lg @ [p..p + (s_n self - c) - 1] \<and>
     s_list self' = s_list self @
        map (\<lambda>q. \<lparr>sock = q, acceptors = threads self, alive = True\<rparr>) [p..p + (s_n self - c) - 1] \<and>
     p + max (s_n self - c) 0 < 65535 \<and>
     (\<forall>q. p \<le> q \<and> q < p + (s_n self - c) \<longrightarrow> 0 \<le> q \<and> bindable q)"
proof (induction bindable self c ps p lg arbitrary: r self' lg' rule: start_loop.induct)
  case (1 bindable self c ps p lg)
  show ?case
  proof (cases "c < s_n self \<or> p \<ge> 65535")
    case False
    with "1.prems" show ?thesis by (auto simp: start_loop.simps)
  next
    case True
    note cond = this
    show ?thesis
    proof (cases "server_thread_init bindable p (threads self)")
      case (Inl e)
      with cond "1.prems" show ?thesis by (simp add: start_loop.simps)
    next
      case (Inr s)
      then have port: "0 \<le> p" "p \<le> 65535" "bindable p"
        and s: "s = \<lparr>sock = p, acceptors = threads self, alive = False\<rparr>"
        by (auto simp: server_thread_init_def split: if_splits)
      let ?self = "self\<lparr>s_list := s_list self @ [s\<lparr>alive := True\<rparr>]\<rparr>"
      from Inr cond "1.prems"
      have rec: "start_loop bindable ?self (c + 1) (ps @ [p]) (p + 1) (lg @ [p]) = (Inr r, self', lg')"
        by (simp add: start_loop.simps[of bindable self c])
      from "1.IH"[OF cond Inr rec]
      have ih: "r = (ps @ [p]) @ [p + 1..p + 1 + (s_n self - (c + 1)) - 1]"
        "lg' = (lg @ [p]) @ [p + 1..p + 1 + (s_n self - (c + 1)) - 1]"
        "s_list self' = (s_list self @ [s\<lparr>alive := True\<rparr>]) @
           map (\<lambda>q. \<lparr>sock = q, acceptors = threads self, alive = True\<rparr>)
             [p + 1..p + 1 + (s_n self - (c + 1)) - 1]"
        "p + 1 + max (s_n self - (c + 1)) 0 < 65535"
        "\<forall>q. p + 1 \<le> q \<and> q < p + 1 + (s_n self - (c + 1)) \<longrightarrow> 0 \<le> q \<and> bindable q"
        by simp_all
      from ih(4) have "p < 65535" by simp
      with cond have k: "c < s_n self" by simp
      then have up: "[p..p + (s_n self - c) - 1] = p # [p + 1..p + 1 + (s_n self - (c + 1)) - 1]"
        by (simp add: upto_rec1[of p] algebra_simps)
      have all: "\<forall>q. p \<le> q \<and> q < p + (s_n self - c) \<longrightarrow> 0 \<le> q \<and> bindable q"
      proof (intro allI impI)
        fix q assume q: "p \<le> q \<and> q < p + (s_n self - c)"
        show "0 \<le> q \<and> bindable q"
        proof (cases "q = p")
          case True
          with port show ?thesis by simp
        next
          case False
          with q have "p + 1 \<le> q \<and> q < p + 1 + (s_n self - (c + 1))" by simp
          with ih(5) show ?thesis by blast
        qed
      qed
      from ih(1,2,3,4) up k s all show ?thesis by simp
    qed
  qed
qed

lemma start_loop_run:
  "nat (s_n self - c) = k \<Longrightarrow>
   p + max (s_n self - c) 0 < 65535 \<Longrightarrow>
   (\<forall>q. p \<le> q \<and> q < p + (s_n self - c) \<longrightarrow> 0 \<le> q \<and> bindable q) \<Longrightarrow>
   start_loop bindable self c ps p lg =
     (Inr (ps @ [p..p + (s_n self - c) - 1]),
      self\<lparr>s_list := s_list self @
        map (\<lambda>q. \<lparr>sock = q, acceptors = threads self, alive = True\<rparr>) [p..p + (s_n self - c) - 1]\<rparr>,
      lg @ [p..p + (s_n self - c) - 1])"
proof (induction k arbitrary: self c ps p lg)
  case 0
  then have "s_n self \<le> c" "p < 65535" by simp_all
  then show ?case by (simp add: start_loop.simps)
next
  case (Suc k)
  then have k: "c < s_n self" by simp
  with Suc.prems have port: "0 \<le> p" "bindable p" "p \<le> 65535" by auto
  let ?s = "\<lparr>sock = p, acceptors = threads self, alive = True\<rparr>"
  let ?self = "self\<lparr>s_list := s_list self @ [?s]\<rparr>"
  have init: "server_thread_init bindable p (threads self) =
      Inr \<lparr>sock = p, acceptors = threads self, alive = False\<rparr>"
    using port by (simp add: server_thread_init_def)
  have step: "start_loop bindable self c ps p lg =
      start_loop bindable ?self (c + 1) (ps @ [p]) (p + 1) (lg @ [p])"
    using k init by (simp add: start_loop.simps[of bindable self c])
  have "start_loop bindable ?self (c + 1) (ps @ [p]) (p + 1) (lg @ [p]) =
     (Inr ((ps @ [p]) @ [p + 1..p + 1 + (s_n ?self - (c + 1)) - 1]),
      ?self\<lparr>s_list := s_list ?self @
        map (\<lambda>q. \<lparr>sock = q, acceptors = threads ?self, alive = True\<rparr>)
          [p + 1..p + 1 + (s_n ?self - (c + 1)) - 1]\<rparr>,
      (lg @ [p]) @ [p + 1..p + 1 + (s_n ?self - (c + 1)) - 1])"
  proof (rule Suc.IH)
    show "nat (s_n ?self - (c + 1)) = k" using Suc.prems(1) by simp
    show "p + 1 + max (s_n ?self - (c + 1)) 0 < 65535" using Suc.prems(2) k by simp
    show "\<forall>q. p + 1 \<le> q \<and> q < p + 1 + (s_n ?self - (c + 1)) \<longrightarrow> 0 \<le> q \<and> bindable q"
      using Suc.prems(3) by simp
  qed
  moreover have "[p..p + (s_n self - c) - 1] = p # [p + 1..p + 1 + (s_n self - (c + 1)) - 1]"
    using k by (simp add: upto_rec1[of p] algebra_simps)
  ultimately show ?case using step by simp
qed

section \<open>Facts about the client side\<close>

lemma connect_cases:
  assumes "undisturbed env"
  shows "client_thread_connect env self =
     (if snd (addr self) < 0 \<or> 65535 < snd (addr self) then (Inl OverflowError, [Opened, Closed])
      else if \<not> connect_ok env then (Inr False, [Opened, Closed])
      else if \<not> send_ok env then (Inr False, [Opened, Connected, Closed])
      else (Inr True, [Opened, Connected, Sent TEST_MSG, Closed]))"
  using assms
  by (simp add: client_thread_connect_def undisturbed_def sock_call_def sock_connect_def
      sock_send_def is_socket_error_def)

lemma connect_sends_le: "sends (snd (client_thread_connect env self)) \<le> 1"
  by (simp add: client_thread_connect_def sock_call_def sock_connect_def sock_send_def
      is_socket_error_def sends_def)

lemma connect_true_sends:
  "fst (client_thread_connect env self) = Inr True \<Longrightarrow>
     sends (snd (client_thread_connect env self)) = 1"
  by (auto simp: client_thread_connect_def sock_call_def sock_connect_def sock_send_def
      is_socket_error_def sends_def split: if_splits)

lemma connect_false_sends:
  "fst (client_thread_connect env self) = Inr False \<Longrightarrow>
     sends (snd (client_thread_connect env self)) = 0"
  by (auto simp: client_thread_connect_def sock_call_def sock_connect_def sock_send_def
      is_socket_error_def sends_def split: if_splits)

lemma run_loop_sound:
  "run_loop net self k evs = Some y \<Longrightarrow>
     \<exists>m. k \<le> m \<and> fst (snd y) = Suc m \<and>
         (\<forall>i. k \<le> i \<and> i < m \<longrightarrow> attempt net self i = Inr False) \<and>
         (case fst y of None \<Rightarrow> attempt net self m = Inr True \<and> sends (snd (snd y)) = sends evs + 1
                     | Some e \<Rightarrow> attempt net self m = Inl e \<and> sends (snd (snd y)) \<le> sends evs + 1)"
proof (induction net self k evs y rule: run_loop.raw_induct[rotated, consumes 1])
  case (1 run_loop' net self k evs y)
  note IH = "1"(1) and body = "1"(2)
  obtain out es where c: "client_thread_connect (net k) self = (out, es)" by force
  have sT: "out = Inr True \<Longrightarrow> sends es = 1"
    using connect_true_sends[of "net k" self] c by simp
  have sF: "out = Inr False \<Longrightarrow> sends es = 0"
    using connect_false_sends[of "net k" self] c by simp
  have sL: "sends es \<le> 1"
    using connect_sends_le[of "net k" self] c by simp
  have app: "sends (evs @ es) = sends evs + sends es" by (simp add: sends_def)
  show ?case
  proof (cases out)
    case (Inl e)
    with c body have "y = (Some e, Suc k, evs @ es)" by simp
    with Inl c sL app show ?thesis
      by (intro exI[of _ k]) (auto simp: attempt_def)
  next
    case (Inr ok)
    show ?thesis
    proof (cases ok)
      case True
      with Inr c body have "y = (None, Suc k, evs @ es)" by simp
      with Inr True c sT app show ?thesis
        by (intro exI[of _ k]) (auto simp: attempt_def)
    next
      case False
      with Inr c body have "run_loop' net self (Suc k) (evs @ es) = Some y" by simp
      from IH[OF this] obtain m where m: "Suc k \<le> m" "fst (snd y) = Suc m"
        "\<forall>i. Suc k \<le> i \<and> i < m \<longrightarrow> attempt net self i = Inr False"
        "(case fst y of None \<Rightarrow> attempt net self m = Inr True \<and> sends (snd (snd y)) = sends (evs @ es) + 1
                     | Some e \<Rightarrow> attempt net self m = Inl e \<and> sends (snd (snd y)) \<le> sends (evs @ es) + 1)"
        by blast
      have k: "attempt net self k = Inr False" using c Inr False by (simp add: attempt_def)
      have "\<forall>i. k \<le> i \<and> i < m \<longrightarrow> attempt net self i = Inr False"
      proof (intro allI impI)
        fix i assume "k \<le> i \<and> i < m"
        then show "attempt net self i = Inr False"
          using k m(3) by (cases "i = k") auto
      qed
      moreover have "sends (evs @ es) = sends evs"
        using sF Inr False app by simp
      ultimately show ?thesis using m
        by (intro exI[of _ m]) (auto split: option.splits)
    qed
  qed
qed

lemma run_loop_complete:
  "attempt net self (k + d) = Inr True \<Longrightarrow>
   (\<forall>i. k \<le> i \<and> i < k + d \<longrightarrow> attempt net self i = Inr False) \<Longrightarrow>
   \<exists>evs'. run_loop net self k evs = Some (None, Suc (k + d), evs')"
proof (induction d arbitrary: k evs)
  case 0
  then show ?case
    by (subst run_loop.simps) (auto simp: attempt_def split: prod.splits sum.splits)
next
  case (Suc d)
  have "attempt net self k = Inr False" using Suc.prems(2) by simp
  moreover have "\<exists>evs'. run_loop net self (Suc k) evs2 = Some (None, Suc (Suc k + d), evs')" for evs2
    using Suc.IH[of "Suc k" evs2] Suc.prems by simp
  ultimately show ?case
    by (subst run_loop.simps) (auto simp: attempt_def split: prod.splits sum.splits)
qed

lemma attempt_valid_port:
  "undisturbed (net k) \<Longrightarrow> 0 \<le> snd (addr self) \<Longrightarrow> snd (addr self) \<le> 65535 \<Longrightarrow>
     \<exists>b. attempt net self k = Inr b"
  by (auto simp: attempt_def connect_cases)

lemma join_all_runs:
  "join_all net j ds = Some rs \<Longrightarrow>
     length rs = length ds \<and> (\<forall>i < length ds. client_thread_run (net (j + i)) (ds ! i) = Some (rs ! i))"
proof (induction ds arbitrary: j rs)
  case Nil
  then show ?case by simp
next
  case (Cons d ds)
  from Cons.prems obtain r rs' where r: "client_thread_run (net j) d = Some r"
    and rs': "join_all net (Suc j) ds = Some rs'" and rs: "rs = r # rs'"
    by (auto split: option.splits)
  from Cons.IH[OF rs'] have ih: "length rs' = length ds"
    "\<forall>i < length ds. client_thread_run (net (Suc j + i)) (ds ! i) = Some (rs' ! i)" by auto
  show ?case
  proof (intro conjI allI impI)
    show "length rs = length (d # ds)" using ih rs by simp
  next
    fix i assume "i < length (d # ds)"
    then show "client_thread_run (net (j + i)) ((d # ds) ! i) = Some (rs ! i)"
      using r rs ih(2) by (cases i) auto
  qed
qed

lemma start_tasks_ok:
  assumes "s_ports self = ports" and "ports \<noteq> []"
  shows "start_tasks raw (int (length ports)) js self =
     (None, self\<lparr>c_list := c_list self @
        map (\<lambda>i. \<lparr>addr = (''localhost'', ports ! (raw i mod length ports)), launched = True\<rparr>) js\<rparr>)"
  using assms
proof (induction js arbitrary: self)
  case Nil
  then show ?case by simp
next
  case (Cons i js)
  have len: "0 < length ports" using Cons.prems by simp
  have r: "randint raw i 0 (int (length ports) - 1) = Inr (int (raw i mod length ports))"
    using len by (simp add: randint_def)
  have ix: "py_index ports (int (raw i mod length ports)) = Inr (ports ! (raw i mod length ports))"
    using len by (simp add: py_index_def)
  show ?case
    using Cons.prems r ix
    by (simp add: Cons.IH client_thread_init_def)
qed

lemma Client_start_drivers:
  assumes "Client_start raw (Client_init ports n) = (None, c)"
  shows "length (c_list c) = nat n \<and> (\<forall>d \<in> set (c_list c). snd (addr d) \<in> set ports)"
proof (cases "ports = []")
  case True
  show ?thesis
  proof (cases "nat n")
    case 0
    with assms True show ?thesis by (auto simp: Client_start_def Client_init_def)
  next
    case (Suc k)
    then have "[0..<nat n] = 0 # [1..<nat n]" by (simp add: upt_conv_Cons)
    with assms True show ?thesis
      by (simp add: Client_start_def Client_init_def randint_def)
  qed
next
  case False
  have "s_ports (Client_init ports n) = ports" by (simp add: Client_init_def)
  from start_tasks_ok[OF this False, of raw "[0..<nat n]"] assms
  have "c = (Client_init ports n)\<lparr>c_list := c_list (Client_init ports n) @
        map (\<lambda>i. \<lparr>addr = (''localhost'', ports ! (raw i mod length ports)), launched = True\<rparr>) [0..<nat n]\<rparr>"
    by (simp add: Client_start_def Client_init_def)
  with False show ?thesis by (auto simp: Client_init_def)
qed

lemma run_first_success:
  "(attempt net self m = Inr True \<and> (\<forall>i<m. attempt net self i = Inr False)) =
   (\<exists>evs. client_thread_run net self = Some (None, Suc m, evs) \<and> sends evs = 1)"
proof
  assume a: "attempt net self m = Inr True \<and> (\<forall>i<m. attempt net self i = Inr False)"
  then obtain evs where r: "run_loop net self 0 [] = Some (None, Suc m, evs)"
    using run_loop_complete[of net self 0 m "[]"] by auto
  from run_loop_sound[OF r] have "sends evs = 1" by (auto simp: sends_def)
  with r show "\<exists>evs. client_thread_run net self = Some (None, Suc m, evs) \<and> sends evs = 1"
    by (simp add: client_thread_run_def)
next
  assume "\<exists>evs. client_thread_run net self = Some (None, Suc m, evs) \<and> sends evs = 1"
  then obtain evs where r: "run_loop net self 0 [] = Some (None, Suc m, evs)"
    by (auto simp: client_thread_run_def)
  from run_loop_sound[OF r]
  show "attempt net self m = Inr True \<and> (\<forall>i<m. attempt net self i = Inr False)" by auto
qed

lemma run_ends_undisturbed:
  assumes "\<forall>k. undisturbed (net k)"
    and "0 \<le> snd (addr self)" and "snd (addr self) \<le> 65535"
    and "client_thread_run net self = Some r"
  shows "\<exists>m evs. r = (None, Suc m, evs) \<and> sends evs = 1"
proof -
  from assms(4) have r: "run_loop net self 0 [] = Some r" by (simp add: client_thread_run_def)
  from run_loop_sound[OF r] obtain m where m: "fst (snd r) = Suc m"
    "(case fst r of None \<Rightarrow> attempt net self m = Inr True \<and> sends (snd (snd r)) = sends [] + 1
                  | Some e \<Rightarrow> attempt net self m = Inl e \<and> sends (snd (snd r)) \<le> sends [] + 1)"
    by blast
  from assms(1) have "undisturbed (net m)" by simp
  from attempt_valid_port[of net m self, OF this assms(2,3)]
  obtain b where "attempt net self m = Inr b" by blast
  with m(2) have "fst r = None" "sends (snd (snd r)) = 1"
    by (auto simp: sends_def split: option.splits)
  with m(1) show ?thesis by (cases r) auto
qed

lemma join_runs_ended:
  assumes calm: "\<forall>j k. undisturbed (net j k)"
    and valid: "\<forall>p \<in> set ports. 0 \<le> p \<and> p \<le> 65535"
    and started: "Client_start raw (Client_init ports n) = (None, c)"
    and joined: "Client_join net c = Some (results, c')"
  shows "length results = nat n \<and>
         (\<forall>j < nat n. client_thread_run (net j) (c_list c ! j) = Some (results ! j) \<and>
            (\<exists>m evs. results ! j = (None, Suc m, evs) \<and> sends evs = 1))"
proof -
  from Client_start_drivers[OF started]
  have len: "length (c_list c) = nat n" and tgt: "\<forall>d \<in> set (c_list c). snd (addr d) \<in> set ports"
    by auto
  have ok: "0 \<le> snd (addr (c_list c ! j)) \<and> snd (addr (c_list c ! j)) \<le> 65535"
    if "j < length (c_list c)" for j
    using that tgt valid by (metis nth_mem)
  from joined have "join_all net 0 (c_list c) = Some results"
    by (auto simp: Client_join_def split: option.splits)
  from join_all_runs[OF this] len
  have l: "length results = nat n"
    and runs: "\<forall>i < nat n. client_thread_run (net i) (c_list c ! i) = Some (results ! i)"
    by auto
  have "\<exists>m evs. results ! i = (None, Suc m, evs) \<and> sends evs = 1" if "i < nat n" for i
  proof -
    from calm have "\<forall>k. undisturbed (net i k)" by simp
    from run_ends_undisturbed[OF this, of "c_list c ! i" "results ! i"] ok[of i] runs that len
    show ?thesis by auto
  qed
  with l runs show ?thesis by blast
qed










section \<open>The claims\<close>

text \<open>
  \<^bold>\<open>C1.\<close> The claim: when a bind fails, \<^verbatim>\<open>Server.start\<close> goes on to the next port and still
  returns a (possibly empty) list instead of passing the bind error to its caller. The
  code: the \<^verbatim>\<open>try\<close> has no \<^verbatim>\<open>except\<close>, so the first failed bind leaves \<^verbatim>\<open>start\<close> as an
  exception. With one endpoint wanted and the base port 55534 busy (every other port
  free), \<^verbatim>\<open>start\<close> raises \<open>OSError\<close> after the single bind attempt and never tries 55535.
\<close>

theorem start_raises_on_busy_port:
  "Server_start (\<lambda>p. p \<noteq> 55534) (Server_init 1 1) 55534 =
     (Inl OSError, \<lparr>threads = 1, s_n = 1, s_list = []\<rparr>, [55534])"
  by (simp add: Server_start_def Server_init_def start_loop.simps server_thread_init_def)

text \<open>
  \<^bold>\<open>C2.\<close> The claim: the loop stops exactly when the counter reaches the wanted number
  or the next port would exceed 65535; with base port 65535 and one endpoint wanted
  there is exactly one bind attempt. The code: the condition is
  \<^verbatim>\<open>s_counter < self.s_n or s_port >= 65535\<close>, which keeps the loop going from port 65535
  on. With port 65535 free the loop binds it, goes on to 65536 and leaves \<^verbatim>\<open>start\<close> with
  the \<open>OverflowError\<close> of that second bind attempt.
\<close>

theorem start_at_boundary_port:
  "Server_start (\<lambda>p. True) (Server_init 1 1) 65535 =
   (Inl OverflowError,
    \<lparr>threads = 1, s_n = 1, s_list = [\<lparr>sock = 65535, acceptors = 1, alive = True\<rparr>]\<rparr>,
    [65535, 65536])"
  by (simp add: Server_start_def Server_init_def start_loop.simps server_thread_init_def)

text \<open>
  \<^bold>\<open>C3.\<close> The claim: when every bind succeeds and \<open>p + N - 1 < 65535\<close>, \<^verbatim>\<open>start\<close> returns
  the ports \<open>p, ..., p + N - 1\<close>. The code at \<open>p = 65534\<close>, \<open>N = 1\<close> with every port free:
  after binding 65534 the counter has reached \<open>N\<close>, but the port is now 65535 and the
  loop condition holds; the loop binds 65535 as a second endpoint, tries 65536 and
  raises \<open>OverflowError\<close>. No list is returned.
\<close>

theorem start_below_boundary_port:
  "Server_start (\<lambda>p. True) (Server_init 1 1) 65534 =
   (Inl OverflowError,
    \<lparr>threads = 1, s_n = 1,
       s_list = [\<lparr>sock = 65534, acceptors = 1, alive = True\<rparr>,
                 \<lparr>sock = 65535, acceptors = 1, alive = True\<rparr>]\<rparr>,
    [65534, 65535, 65536])"
  by (simp add: Server_start_def Server_init_def start_loop.simps server_thread_init_def)

text \<open>
  \<^bold>\<open>C4.\<close> The claim: \<^verbatim>\<open>connect\<close> returns \<^verbatim>\<open>False\<close> on any socket error instead of passing
  it on, and closes the socket it opened on every exit path. The docstring of
  \<^verbatim>\<open>connect\<close> says the same: \<^verbatim>\<open>Return: True if no error occurres otherwise False\<close>. The code:
  \<^verbatim>\<open>socket.socket()\<close>, \<^verbatim>\<open>settimeout\<close> and \<^verbatim>\<open>setsockopt\<close> stand before the \<^verbatim>\<open>try\<close>. When the
  process has no file descriptor left, \<^verbatim>\<open>socket.socket()\<close> raises \<open>OSError\<close> and \<^verbatim>\<open>connect\<close>
  raises it in turn instead of returning \<^verbatim>\<open>False\<close>; when \<^verbatim>\<open>setsockopt\<close> raises, \<^verbatim>\<open>connect\<close>
  raises as well and the socket it has opened is not closed.
\<close>

theorem connect_raises_on_socket_failure:
  "client_thread_connect
     \<lparr>socket_ok = False, settimeout_ok = True, setsockopt_ok = True,
      connect_ok = True, send_ok = True, close_ok = True\<rparr>
     (client_thread_init 50000) = (Inl OSError, []) \<and>
   client_thread_connect
     \<lparr>socket_ok = True, settimeout_ok = True, setsockopt_ok = False,
      connect_ok = True, send_ok = True, close_ok = True\<rparr>
     (client_thread_init 50000) = (Inl OSError, [Opened])"
  by (simp add: client_thread_connect_def sock_call_def)

text \<open>
  \<^bold>\<open>C5.\<close> The claim: a driver never ends without exactly one successful send, so
  \<^verbatim>\<open>join\<close> returns only after every driver has made one. The code: \<^verbatim>\<open>run\<close> is
  \<^verbatim>\<open>while not self.connect(): pass\<close> and relies on \<^verbatim>\<open>connect\<close> answering every error with
  \<^verbatim>\<open>False\<close>. With one client aimed at port 50000 and a process that has no file
  descriptor left, the first \<^verbatim>\<open>socket.socket()\<close> raises \<open>OSError\<close>, which \<^verbatim>\<open>connect\<close> does not
  catch: the exception ends the thread after one attempt with nothing sent, and
  \<^verbatim>\<open>join\<close> returns.
\<close>

theorem driver_ends_without_send:
  "Client_start (\<lambda>i. 0) (Client_init [50000] 1) =
     (None, \<lparr>s_ports = [50000], c_n = 1,
             c_list = [\<lparr>addr = (''localhost'', 50000), launched = True\<rparr>]\<rparr>) \<and>
   client_thread_run
     (\<lambda>k. \<lparr>socket_ok = False, settimeout_ok = True, setsockopt_ok = True,
            connect_ok = True, send_ok = True, close_ok = True\<rparr>)
     \<lparr>addr = (''localhost'', 50000), launched = True\<rparr> = Some (Some OSError, 1, []) \<and>
   sends [] = 0 \<and>
   Client_join
     (\<lambda>j k. \<lparr>socket_ok = False, settimeout_ok = True, setsockopt_ok = True,
              connect_ok = True, send_ok = True, close_ok = True\<rparr>)
     \<lparr>s_ports = [50000], c_n = 1,
      c_list = [\<lparr>addr = (''localhost'', 50000), launched = True\<rparr>]\<rparr> =
     Some ([(Some OSError, 1, [])], \<lparr>s_ports = [50000], c_n = 1, c_list = []\<rparr>)"
proof -
  have r: "client_thread_run
     (\<lambda>k. \<lparr>socket_ok = False, settimeout_ok = True, setsockopt_ok = True,
            connect_ok = True, send_ok = True, close_ok = True\<rparr>)
     \<lparr>addr = (''localhost'', 50000), launched = True\<rparr> = Some (Some OSError, 1, [])"
    by (simp add: client_thread_run_def run_loop.simps client_thread_connect_def sock_call_def)
  have s: "Client_start (\<lambda>i. 0) (Client_init [50000] 1) =
     (None, \<lparr>s_ports = [50000], c_n = 1,
             c_list = [\<lparr>addr = (''localhost'', 50000), launched = True\<rparr>]\<rparr>)"
    by (simp add: Client_start_def Client_init_def randint_def py_index_def client_thread_init_def)
  from r s show ?thesis by (simp add: Client_join_def sends_def)
qed



text \<open>
  \<^bold>\<open>C7.\<close> The claim: port exhaustion, signalled as \<^verbatim>\<open>NO_PORT_TO_USE\<close> on an empty port
  list, is the only condition that ends the program as an error of the core. The code:
  with valid counts and the base port 55534 busy, the \<open>OSError\<close> of the failed bind
  leaves \<^verbatim>\<open>Server.start\<close> and ends the program, although every other port is free.
\<close>

theorem main_raises_bind_error:
  "main (\<lambda>p. p \<noteq> 55534) raw net 1 1 1 55534 = Some (Inl OSError)"
  by (simp add: main_def validate_def Server_start_def Server_init_def start_loop.simps server_thread_init_def)

text \<open>
  \<^bold>\<open>C8.\<close> The claim as stated fails for the starting port: \<^verbatim>\<open>PORT = -1\<close> with the three
  counts 1 passes the checks, the core is invoked and its bind raises \<open>OverflowError\<close>.
\<close>

theorem validate_skips_port_counterexample:
  "validate 1 1 1 (- 1) = None \<and>
   main (\<lambda>p. True) (\<lambda>i. 0) (\<lambda>j k. \<lparr>socket_ok = True, settimeout_ok = True, setsockopt_ok = True,
              connect_ok = True, send_ok = True, close_ok = True\<rparr>) 1 1 1 (- 1) =
     Some (Inl OverflowError)"
  by (simp add: main_def validate_def Server_start_def Server_init_def start_loop.simps
      server_thread_init_def)

text \<open>
  \<^bold>\<open>C8, amended.\<close> Before the core is invoked the program rejects every non-positive
  value of the client count, the server count and the threads-per-server count, in
  this order, each with its own \<^verbatim>\<open>EbgException\<close>; the checks raise exactly when one of
  the three counts is non-positive, whatever the starting port is.
\<close>

theorem validate_rejects_counts:
  "(c \<le> 0 \<longrightarrow> main bindable raw net c s t p = Some (Inl (EbgException CLIENT_NUM_ERROR))) \<and>
   (0 < c \<and> s \<le> 0 \<longrightarrow> main bindable raw net c s t p = Some (Inl (EbgException SERVER_NUM_ERROR))) \<and>
   (0 < c \<and> 0 < s \<and> t \<le> 0 \<longrightarrow>
      main bindable raw net c s t p = Some (Inl (EbgException THREAD_NUM_ERROR))) \<and>
   ((\<exists>e. validate c s t p = Some e) = (c \<le> 0 \<or> s \<le> 0 \<or> t \<le> 0))"
  by (auto simp: main_def validate_def)

theorem validate_rejects_counts_witness:
  "(0 :: int) < 3 \<and> (0 :: int) \<le> 0 \<and>
   main (\<lambda>p. True) (\<lambda>i. 0) (\<lambda>j k. \<lparr>socket_ok = True, settimeout_ok = True, setsockopt_ok = True,
              connect_ok = True, send_ok = True, close_ok = True\<rparr>) 3 0 1 50000 =
     Some (Inl (EbgException SERVER_NUM_ERROR)) \<and>
   main (\<lambda>p. True) (\<lambda>i. 0) (\<lambda>j k. \<lparr>socket_ok = True, settimeout_ok = True, setsockopt_ok = True,
              connect_ok = True, send_ok = True, close_ok = True\<rparr>) 0 2 1 50000 =
     Some (Inl (EbgException CLIENT_NUM_ERROR)) \<and>
   main (\<lambda>p. True) (\<lambda>i. 0) (\<lambda>j k. \<lparr>socket_ok = True, settimeout_ok = True, setsockopt_ok = True,
              connect_ok = True, send_ok = True, close_ok = True\<rparr>) 3 2 (- 4) 50000 =
     Some (Inl (EbgException THREAD_NUM_ERROR))"
  using validate_rejects_counts[of 3 "\<lambda>p. True" "\<lambda>i. 0" "\<lambda>j k. \<lparr>socket_ok = True, settimeout_ok = True, setsockopt_ok = True,
          connect_ok = True, send_ok = True, close_ok = True\<rparr>" 0 1 50000]
    validate_rejects_counts[of 0 "\<lambda>p. True" "\<lambda>i. 0" "\<lambda>j k. \<lparr>socket_ok = True, settimeout_ok = True, setsockopt_ok = True,
          connect_ok = True, send_ok = True, close_ok = True\<rparr>" 2 1 50000]
    validate_rejects_counts[of 3 "\<lambda>p. True" "\<lambda>i. 0" "\<lambda>j k. \<lparr>socket_ok = True, settimeout_ok = True, setsockopt_ok = True,
          connect_ok = True, send_ok = True, close_ok = True\<rparr>" 2 "- 4" 50000]
  by simp

text \<open>
  \<^bold>\<open>C9.\<close> With \<^verbatim>\<open>s_n\<close> at least 1 the first iteration of \<^verbatim>\<open>Server.start\<close> either raises or
  records the base port, so \<^verbatim>\<open>start\<close> never returns the empty list; and the program
  never ends with \<^verbatim>\<open>NO_PORT_TO_USE\<close>, whatever its flags and its environment.
\<close>

theorem start_never_empty:
  assumes "1 \<le> s_n self"
  shows "((\<exists>e. fst (Server_start bindable self p) = Inl e) \<or>
          (\<exists>ps. fst (Server_start bindable self p) = Inr (p # ps))) \<and>
         fst (Server_start bindable self p) \<noteq> Inr [] \<and>
         main bindable raw net c n t p \<noteq> Some (Inl (EbgException NO_PORT_TO_USE))"
  using start_first_iteration[OF assms, of bindable p] main_no_port_error[of bindable raw net c n t p]
  by auto

theorem start_never_empty_witness:
  "1 \<le> s_n (Server_init 4 2) \<and>
   fst (Server_start (\<lambda>p. p \<noteq> 50000) (Server_init 4 2) 50000) \<noteq> Inr [] \<and>
   fst (Server_start (\<lambda>p. True) (Server_init 4 2) 50000) \<noteq> Inr []"
  using start_never_empty[of "Server_init 4 2" "\<lambda>p. p \<noteq> 50000" 50000]
    start_never_empty[of "Server_init 4 2" "\<lambda>p. True" 50000]
  by (simp add: Server_init_def)

text \<open>
  \<^bold>\<open>C10.\<close> With \<^verbatim>\<open>c_n\<close> at least 1 and no targets, the draw of the first task,
  \<^verbatim>\<open>randint(0, -1)\<close>, raises \<open>ValueError\<close>, which leaves \<^verbatim>\<open>Client.start\<close> with no driver
  launched.
\<close>

theorem start_without_targets_raises:
  assumes "1 \<le> n"
  shows "randint raw 0 0 (int (length ([] :: int list)) - 1) = Inl ValueError \<and>
         Client_start raw (Client_init [] n) =
           (Some ValueError, \<lparr>s_ports = [], c_n = n, c_list = []\<rparr>)"
proof -
  from assms obtain k where "nat n = Suc k" by (cases "nat n") auto
  then have "[0..<nat n] = 0 # [1..<nat n]" by (simp add: upt_conv_Cons)
  then show ?thesis
    by (simp add: Client_start_def Client_init_def randint_def)
qed

theorem start_without_targets_raises_witness:
  "(1 :: int) \<le> 5 \<and>
   Client_start (\<lambda>i. i) (Client_init [] 5) = (Some ValueError, \<lparr>s_ports = [], c_n = 5, c_list = []\<rparr>)"
  using start_without_targets_raises[of 5 "\<lambda>i. i"] by simp

section \<open>Further properties\<close>

text \<open>
  When \<^verbatim>\<open>Server.start\<close> returns at all, and what it returns: it returns a list exactly
  when the ports \<open>p, ..., p + s_n - 1\<close> are all non-negative and bindable and
  \<open>p + max s_n 0 < 65535\<close>, and the list is then exactly these ports in ascending order.
  A bind failure, or a run of ports that reaches 65534, ends the call with an exception
  instead.
\<close>

theorem start_returns_exactly:
  "(fst (Server_start bindable self p) = Inr ps) =
     (ps = [p..p + s_n self - 1] \<and> p + max (s_n self) 0 < 65535 \<and>
      (\<forall>q. p \<le> q \<and> q < p + s_n self \<longrightarrow> 0 \<le> q \<and> bindable q))"
proof
  assume a: "fst (Server_start bindable self p) = Inr ps"
  obtain self' lg' where "start_loop bindable self 0 [] p [] = (Inr ps, self', lg')"
    using a by (cases "start_loop bindable self 0 [] p []") (auto simp: Server_start_def)
  from start_loop_returns[OF this]
  show "ps = [p..p + s_n self - 1] \<and> p + max (s_n self) 0 < 65535 \<and>
      (\<forall>q. p \<le> q \<and> q < p + s_n self \<longrightarrow> 0 \<le> q \<and> bindable q)" by simp
next
  assume a: "ps = [p..p + s_n self - 1] \<and> p + max (s_n self) 0 < 65535 \<and>
      (\<forall>q. p \<le> q \<and> q < p + s_n self \<longrightarrow> 0 \<le> q \<and> bindable q)"
  then show "fst (Server_start bindable self p) = Inr ps"
    using start_loop_run[of self 0 "nat (s_n self)" p bindable "[]" "[]"]
    by (simp add: Server_start_def)
qed

theorem start_returns_exactly_witness:
  "fst (Server_start (\<lambda>q. 50000 \<le> q \<and> q < 50003) (Server_init 4 3) 50000) =
     Inr [50000, 50001, 50002]"
proof -
  have u: "[50000..50000 + s_n (Server_init 4 3) - 1] = [50000, 50001, 50002]"
    by (simp add: Server_init_def upto_rec1)
  show ?thesis
    using start_returns_exactly[of "\<lambda>q. 50000 \<le> q \<and> q < 50003" "Server_init 4 3" 50000
        "[50000, 50001, 50002]"] u
    by (simp add: Server_init_def)
qed

text \<open>
  \<^verbatim>\<open>client_thread.connect\<close> during an attempt in which the system refuses none of the
  calls that create, configure and close the socket: it returns \<^verbatim>\<open>True\<close> exactly when
  both \<^verbatim>\<open>connect\<close> and \<^verbatim>\<open>send\<close> succeed; a socket error in either makes it return \<^verbatim>\<open>False\<close>
  instead of raising; and the events of the call are the opening of one socket, then
  events that neither open nor close, then the closing of that socket as the last
  event.
\<close>

theorem connect_when_undisturbed:
  assumes "undisturbed env"
  shows "(fst (client_thread_connect env self) = Inr True) =
     (sock_connect env (addr self) = None \<and> sock_send env TEST_MSG = None) \<and>
   (\<forall>e. is_socket_error e \<longrightarrow>
        sock_connect env (addr self) = Some e \<or>
        (sock_connect env (addr self) = None \<and> sock_send env TEST_MSG = Some e) \<longrightarrow>
        fst (client_thread_connect env self) = Inr False) \<and>
   (\<exists>evs. snd (client_thread_connect env self) = Opened # evs @ [Closed] \<and>
          Opened \<notin> set evs \<and> Closed \<notin> set evs)"
  using assms
  by (auto simp: client_thread_connect_def undisturbed_def sock_call_def sock_connect_def
      sock_send_def is_socket_error_def)

theorem connect_when_undisturbed_witness:
  "undisturbed \<lparr>socket_ok = True, settimeout_ok = True, setsockopt_ok = True,
               connect_ok = True, send_ok = False, close_ok = True\<rparr> \<and>
   is_socket_error OSError \<and>
   sock_send \<lparr>socket_ok = True, settimeout_ok = True, setsockopt_ok = True,
             connect_ok = True, send_ok = False, close_ok = True\<rparr> TEST_MSG = Some OSError \<and>
   fst (client_thread_connect
          \<lparr>socket_ok = True, settimeout_ok = True, setsockopt_ok = True,
           connect_ok = True, send_ok = False, close_ok = True\<rparr>
          (client_thread_init 50000)) = Inr False"
proof -
  let ?env = "\<lparr>socket_ok = True, settimeout_ok = True, setsockopt_ok = True,
               connect_ok = True, send_ok = False, close_ok = True\<rparr>"
  let ?self = "client_thread_init 50000"
  have h0: "undisturbed ?env" by (simp add: undisturbed_def)
  have h1: "is_socket_error OSError" by (simp add: is_socket_error_def)
  have h2: "sock_connect ?env (addr ?self) = None"
    by (simp add: sock_connect_def client_thread_init_def)
  have h3: "sock_send ?env TEST_MSG = Some OSError" by (simp add: sock_send_def)
  have "\<forall>e. is_socket_error e \<longrightarrow>
        sock_connect ?env (addr ?self) = Some e \<or>
        (sock_connect ?env (addr ?self) = None \<and> sock_send ?env TEST_MSG = Some e) \<longrightarrow>
        fst (client_thread_connect ?env ?self) = Inr False"
    using connect_when_undisturbed[OF h0, of ?self] by blast
  with h1 h2 h3 have r: "fst (client_thread_connect ?env ?self) = Inr False" by blast
  from h0 h1 h3 r show ?thesis by blast
qed

text \<open>
  The drivers of a \<^verbatim>\<open>Client\<close> whose \<^verbatim>\<open>start\<close> has returned. A driver's run ends by
  returning after \<open>m + 1\<close> attempts, with exactly one successful send among its events,
  exactly when its attempt number \<open>m\<close> is the first one that returns \<^verbatim>\<open>True\<close>. When the
  targets are ports (0..65535) and the system refuses none of the calls that create,
  configure and close a socket, then once \<^verbatim>\<open>join\<close> returns there are \<^verbatim>\<open>c_n\<close> runs and
  the run of each driver has ended, by returning, with exactly one successful send.
\<close>

theorem drivers_end_when_undisturbed:
  assumes calm: "\<forall>j k. undisturbed (net j k)"
    and valid: "\<forall>p \<in> set ports. 0 \<le> p \<and> p \<le> 65535"
    and started: "Client_start raw (Client_init ports n) = (None, c)"
  shows "(\<forall>j < length (c_list c). \<forall>m.
            (attempt (net j) (c_list c ! j) m = Inr True \<and>
             (\<forall>i<m. attempt (net j) (c_list c ! j) i = Inr False)) =
            (\<exists>evs. client_thread_run (net j) (c_list c ! j) = Some (None, Suc m, evs) \<and> sends evs = 1)) \<and>
         (\<forall>results c'. Client_join net c = Some (results, c') \<longrightarrow>
            length results = nat n \<and>
            (\<forall>j < nat n. client_thread_run (net j) (c_list c ! j) = Some (results ! j) \<and>
               (\<exists>m evs. results ! j = (None, Suc m, evs) \<and> sends evs = 1)))"
proof -
  have first: "\<forall>j < length (c_list c). \<forall>m.
            (attempt (net j) (c_list c ! j) m = Inr True \<and>
             (\<forall>i<m. attempt (net j) (c_list c ! j) i = Inr False)) =
            (\<exists>evs. client_thread_run (net j) (c_list c ! j) = Some (None, Suc m, evs) \<and> sends evs = 1)"
    using run_first_success by blast
  have second: "length results = nat n \<and>
            (\<forall>j < nat n. client_thread_run (net j) (c_list c ! j) = Some (results ! j) \<and>
               (\<exists>m evs. results ! j = (None, Suc m, evs) \<and> sends evs = 1))"
    if "Client_join net c = Some (results, c')" for results c'
    using join_runs_ended[OF calm valid started that] .
  from first second show ?thesis by blast
qed

theorem drivers_end_when_undisturbed_witness:
  "list_all (\<lambda>p. 0 \<le> p \<and> p \<le> 65535) [50000, 50001 :: int] \<and>
   Client_start (\<lambda>i. i) (Client_init [50000, 50001] 2) =
     (None, \<lparr>s_ports = [50000, 50001], c_n = 2,
             c_list = [\<lparr>addr = (''localhost'', 50000), launched = True\<rparr>,
                       \<lparr>addr = (''localhost'', 50001), launched = True\<rparr>]\<rparr>) \<and>
   (\<exists>results c'.
      Client_join
        (\<lambda>j k. \<lparr>socket_ok = True, settimeout_ok = True, setsockopt_ok = True,
                 connect_ok = (j \<le> k), send_ok = True, close_ok = True\<rparr>)
        \<lparr>s_ports = [50000, 50001], c_n = 2,
         c_list = [\<lparr>addr = (''localhost'', 50000), launched = True\<rparr>,
                   \<lparr>addr = (''localhost'', 50001), launched = True\<rparr>]\<rparr> = Some (results, c') \<and>
      length results = nat 2)"
proof -
  let ?c = "\<lparr>s_ports = [50000, 50001], c_n = 2,
             c_list = [\<lparr>addr = (''localhost'', 50000), launched = True\<rparr>,
                       \<lparr>addr = (''localhost'', 50001), launched = True\<rparr>]\<rparr>"
  let ?net = "\<lambda>j k. \<lparr>socket_ok = True, settimeout_ok = True, setsockopt_ok = True,
                 connect_ok = (j \<le> k), send_ok = True, close_ok = True\<rparr>"
  let ?rs = "[(None :: exn option, 1 :: nat, [Opened, Connected, Sent TEST_MSG, Closed]),
        (None, 2, [Opened, Closed, Opened, Connected, Sent TEST_MSG, Closed])]"
  have calm: "\<forall>j k. undisturbed (?net j k)" by (simp add: undisturbed_def)
  have v: "\<forall>p \<in> set [50000, 50001 :: int]. 0 \<le> p \<and> p \<le> 65535" by simp
  have s: "Client_start (\<lambda>i. i) (Client_init [50000, 50001] 2) = (None, ?c)"
    by code_simp
  have j: "Client_join ?net ?c = Some (?rs, ?c\<lparr>c_list := []\<rparr>)"
    by code_simp
  from drivers_end_when_undisturbed[OF calm v s] j
  have "length ?rs = nat 2" by blast
  with j s show ?thesis by auto
qed

text \<open>
  The whole program, when the system refuses none of the calls that create, configure
  and close a client socket: when the program ends normally, the three counts were
  positive, the ports are the \<^verbatim>\<open>SERVER_NUM\<close> ports from \<^verbatim>\<open>PORT\<close> upward, there are
  \<^verbatim>\<open>CLIENT_NUM\<close> driver runs, each ended by returning with exactly one successful send,
  and the servers are stopped.
\<close>

theorem main_returns_after_all_sends:
  assumes calm: "\<forall>j k. undisturbed (net j k)"
    and ended: "main bindable raw net c n t p = Some (Inr (ports, results, s))"
  shows "0 < c \<and> 0 < n \<and> 0 < t \<and> ports = [p..p + n - 1] \<and>
         length results = nat c \<and>
         (\<forall>r \<in> set results. \<exists>m evs. r = (None, Suc m, evs) \<and> sends evs = 1) \<and>
         s_list s = []"
proof -
  from ended have v: "validate c n t p = None"
    by (auto simp: main_def split: option.splits)
  then have pos: "0 < c" "0 < n" "0 < t" by (auto simp: validate_def split: if_splits)
  obtain out s0 tried where st: "start_loop bindable (Server_init t n) 0 [] p [] = (out, s0, tried)"
    by (cases "start_loop bindable (Server_init t n) 0 [] p []") auto
  with ended v have out: "out = Inr ports"
    by (cases out) (auto simp: main_def Server_start_def split: if_splits prod.splits option.splits)
  from start_loop_returns[OF st[unfolded out]]
  have ports: "ports = [p..p + n - 1]" and hi: "p + max n 0 < 65535"
    and lo: "\<forall>q. p \<le> q \<and> q < p + n \<longrightarrow> 0 \<le> q \<and> bindable q"
    by (simp_all add: Server_init_def)
  have valid: "\<forall>q \<in> set ports. 0 \<le> q \<and> q \<le> 65535"
    using ports hi lo by auto
  obtain e cl where cs: "Client_start raw (Client_init ports c) = (e, cl)"
    by (cases "Client_start raw (Client_init ports c)") auto
  from ended v st out cs have e: "e = None"
    by (cases e) (auto simp: main_def Server_start_def split: if_splits)
  from ended v st out cs e obtain cl' where j: "Client_join net cl = Some (results, cl')"
    and s: "s = Server_stop s0"
    by (auto simp: main_def Server_start_def split: if_splits option.splits)
  from join_runs_ended[OF calm valid cs[unfolded e] j]
  have l: "length results = nat c"
    and each: "\<forall>j < nat c. \<exists>m evs. results ! j = (None, Suc m, evs) \<and> sends evs = 1"
    by auto
  have "\<forall>r \<in> set results. \<exists>m evs. r = (None, Suc m, evs) \<and> sends evs = 1"
    using l each by (metis in_set_conv_nth)
  with pos ports l s show ?thesis by (simp add: Server_stop_def)
qed

theorem main_returns_after_all_sends_witness:
  "main (\<lambda>q. True) (\<lambda>i. i)
     (\<lambda>j k. \<lparr>socket_ok = True, settimeout_ok = True, setsockopt_ok = True,
              connect_ok = (j \<le> k), send_ok = True, close_ok = True\<rparr>) 2 2 4 50000 =
     Some (Inr ([50000, 50001],
       [(None, 1, [Opened, Connected, Sent TEST_MSG, Closed]),
        (None, 2, [Opened, Closed, Opened, Connected, Sent TEST_MSG, Closed])],
       \<lparr>threads = 4, s_n = 2, s_list = []\<rparr>)) \<and>
   length [(None :: exn option, 1 :: nat, [Opened, Connected, Sent TEST_MSG, Closed]),
        (None, 2, [Opened, Closed, Opened, Connected, Sent TEST_MSG, Closed])] = nat 2"
proof -
  let ?net = "\<lambda>j k. \<lparr>socket_ok = True, settimeout_ok = True, setsockopt_ok = True,
              connect_ok = (j \<le> k), send_ok = True, close_ok = True\<rparr>"
  let ?rs = "[(None :: exn option, 1 :: nat, [Opened, Connected, Sent TEST_MSG, Closed]),
        (None, 2, [Opened, Closed, Opened, Connected, Sent TEST_MSG, Closed])]"
  have calm: "\<forall>j k. undisturbed (?net j k)" by (simp add: undisturbed_def)
  have m: "main (\<lambda>q. True) (\<lambda>i. i) ?net 2 2 4 50000 =
     Some (Inr ([50000, 50001], ?rs, \<lparr>threads = 4, s_n = 2, s_list = []\<rparr>))"
    by code_simp
  from main_returns_after_all_sends[OF calm m] have "length ?rs = nat 2" by blast
  with m show ?thesis by blast
qed

end
